theory Spec2Isabelle
  imports Complex_Main
begin

section \<open>Data model (models.py)\<close>

text \<open>
  The ORM classes \<open>Airport\<close> and \<open>Route\<close> with the columns that the connecting-flight
  search reads. Every column except the primary key is nullable in the schema, so a
  nullable column is an \<open>option\<close>. The primary key \<open>id\<close> is named \<open>airport_id\<close> and
  \<open>route_id\<close> here. Columns that no modelled function reads (name, coordinates,
  altitude, time zone, the code strings of a route, codeshare, equipment) are left out.
\<close>

record Airport =
  airport_id :: int
  city :: "string option"
  country :: "string option"
  iata :: "string option"
  icao :: "string option"

record Route =
  route_id :: int
  airline_code :: "string option"
  airline_id :: "int option"
  source_id :: "int option"
  dest_id :: "int option"
  stops :: "int option"

section \<open>The database session\<close>

text \<open>
  The session is read only on the query path. Its state is the two tables, in storage
  order, and the list of statements executed so far, so that a statement about which
  phases of a search ran can be expressed. A query without ORDER BY returns the
  matching rows in storage order.
\<close>

datatype statement =
    SelectAirportsIlike string string
  | SelectRoutesFrom "int list"
  | SelectRoutesFromTo "int option list" "int list"
  | SelectAirportById "int option"

record Session =
  airports :: "Airport list"
  routes :: "Route list"
  executed :: "statement list"

subsection \<open>SQL operators\<close>

text \<open>\<open>lower\<close> folds the 26 upper-case ASCII letters and leaves every other character.\<close>

definition lower_char :: "char \<Rightarrow> char" where
  "lower_char c =
     (case map_of (zip ''ABCDEFGHIJKLMNOPQRSTUVWXYZ'' ''abcdefghijklmnopqrstuvwxyz'') c of
        None \<Rightarrow> c
      | Some l \<Rightarrow> l)"

text \<open>LIKE: \<open>%\<close> matches any run of characters, \<open>_\<close> exactly one; pattern first.\<close>

fun like :: "string \<Rightarrow> string \<Rightarrow> bool" where
  "like [] [] = True"
| "like [] (c # cs) = False"
| "like (p # ps) [] = (p = CHR ''%'' \<and> like ps [])"
| "like (p # ps) (c # cs) =
     (if p = CHR ''%'' then like ps (c # cs) \<or> like (p # ps) cs
      else (p = CHR ''_'' \<or> p = c) \<and> like ps cs)"

text \<open>
  \<open>column.ilike(pattern)\<close> compiles to \<open>lower(column) LIKE lower(pattern)\<close>; a NULL
  column matches nothing.
\<close>

definition ilike :: "string option \<Rightarrow> string \<Rightarrow> bool" where
  "ilike col pat =
     (case col of None \<Rightarrow> False
      | Some s \<Rightarrow> like (map lower_char pat) (map lower_char s))"

text \<open>\<open>column.in_(values)\<close>: a NULL column is in no list, and a NULL in the list matches nothing.\<close>

definition sql_in :: "int option \<Rightarrow> int option list \<Rightarrow> bool" where
  "sql_in x ids = (case x of None \<Rightarrow> False | Some v \<Rightarrow> Some v \<in> set ids)"

subsection \<open>The four queries of get_connecting_flights\<close>

text \<open>\<open>db.query(Airport).filter(Airport.city.ilike(p), Airport.country.ilike(q)).all()\<close>\<close>

definition all_airports_ilike :: "Session \<Rightarrow> string \<Rightarrow> string \<Rightarrow> Airport list \<times> Session" where
  "all_airports_ilike db city_pat country_pat =
     (filter (\<lambda>a. ilike (city a) city_pat \<and> ilike (country a) country_pat) (airports db),
      db\<lparr>executed := executed db @ [SelectAirportsIlike city_pat country_pat]\<rparr>)"

text \<open>\<open>db.query(Route).filter(Route.source_id.in_(ids), Route.stops == 0).all()\<close>\<close>

definition all_routes_from :: "Session \<Rightarrow> int list \<Rightarrow> Route list \<times> Session" where
  "all_routes_from db ids =
     (filter (\<lambda>r. sql_in (source_id r) (map Some ids) \<and> stops r = Some 0) (routes db),
      db\<lparr>executed := executed db @ [SelectRoutesFrom ids]\<rparr>)"

text \<open>
  \<open>db.query(Route).filter(Route.source_id.in_(via_ids), Route.dest_id.in_(arr_ids),
  Route.stops == 0).all()\<close>; \<open>via_ids\<close> holds \<open>dest_id\<close> values, which may be NULL.
\<close>

definition all_routes_from_to ::
  "Session \<Rightarrow> int option list \<Rightarrow> int list \<Rightarrow> Route list \<times> Session" where
  "all_routes_from_to db src_ids dst_ids =
     (filter (\<lambda>r. sql_in (source_id r) src_ids \<and> sql_in (dest_id r) (map Some dst_ids)
                   \<and> stops r = Some 0) (routes db),
      db\<lparr>executed := executed db @ [SelectRoutesFromTo src_ids dst_ids]\<rparr>)"

text \<open>\<open>db.query(Airport).filter(Airport.id == x).first()\<close>: the first match, or None.\<close>

definition airport_with_id :: "Airport list \<Rightarrow> int option \<Rightarrow> Airport option" where
  "airport_with_id rows x =
     (case x of None \<Rightarrow> None | Some v \<Rightarrow> find (\<lambda>a. airport_id a = v) rows)"

definition first_airport_by_id :: "Session \<Rightarrow> int option \<Rightarrow> Airport option \<times> Session" where
  "first_airport_by_id db x =
     (airport_with_id (airports db) x,
      db\<lparr>executed := executed db @ [SelectAirportById x]\<rparr>)"

section \<open>Python operators\<close>

text \<open>\<open>x or y\<close> on optional strings: None and the empty string are falsy.\<close>

definition py_or :: "string option \<Rightarrow> string option \<Rightarrow> string option" where
  "py_or x y = (case x of None \<Rightarrow> y | Some s \<Rightarrow> if s = [] then y else Some s)"

text \<open>\<open>x or "literal"\<close> with a non-empty literal: always a string.\<close>

definition or_literal :: "string option \<Rightarrow> string \<Rightarrow> string" where
  "or_literal x d = (case x of None \<Rightarrow> d | Some s \<Rightarrow> if s = [] then d else s)"

text \<open>The index adjustment of a slice bound against a list of length \<open>n\<close>.\<close>

definition py_index :: "int \<Rightarrow> int \<Rightarrow> int" where
  "py_index n i = (if i < 0 then max (i + n) 0 else min i n)"

text \<open>\<open>xs[start:stop]\<close>\<close>

definition py_slice :: "'a list \<Rightarrow> int \<Rightarrow> int \<Rightarrow> 'a list" where
  "py_slice xs start stop =
     (let n = int (length xs); s = py_index n start; e = py_index n stop
      in take (nat (e - s)) (drop (nat s) xs))"

section \<open>get_connecting_flights (crud.py)\<close>

text \<open>The object appended to \<open>results\<close> for one pair of legs.\<close>

record obj =
  airline1 :: string
  from1 :: string
  from_city :: "string option"
  via :: string
  via_city :: "string option"
  airline2 :: string
  to :: string
  to_city :: "string option"

text \<open>Reading an attribute of None raises AttributeError.\<close>

datatype error = AttributeError

text \<open>
  Lines 349-358: the attributes are evaluated in the order written, so the first
  absent airport among from, via, to raises.
\<close>

definition build_obj ::
  "Route \<Rightarrow> Route \<Rightarrow> Airport option \<Rightarrow> Airport option \<Rightarrow> Airport option \<Rightarrow> error + obj" where
  "build_obj first second from_airport via_airport to_airport =
     (case from_airport of None \<Rightarrow> Inl AttributeError
      | Some fa \<Rightarrow>
     (case via_airport of None \<Rightarrow> Inl AttributeError
      | Some va \<Rightarrow>
     (case to_airport of None \<Rightarrow> Inl AttributeError
      | Some ta \<Rightarrow>
        Inr \<lparr>airline1 = or_literal (airline_code first) ''Unknown'',
             from1 = or_literal (py_or (iata fa) (icao fa)) ''N/A'',
             from_city = city fa,
             via = or_literal (py_or (iata va) (icao va)) ''N/A'',
             via_city = city va,
             airline2 = or_literal (airline_code second) ''Unknown'',
             to = or_literal (py_or (iata ta) (icao ta)) ''N/A'',
             to_city = city ta\<rparr>)))"

text \<open>Lines 338-358: the three airport lookups, then the object.\<close>

definition make_obj :: "Session \<Rightarrow> Route \<Rightarrow> Route \<Rightarrow> (error + obj) \<times> Session" where
  "make_obj db first second =
     (let (from_airport, db1) = first_airport_by_id db (source_id first);
          (via_airport, db2) = first_airport_by_id db1 (dest_id first);
          (to_airport, db3) = first_airport_by_id db2 (dest_id second)
      in (build_obj first second from_airport via_airport to_airport, db3))"

text \<open>Lines 333-358: the inner loop over \<open>second_legs\<close>, appending to \<open>results\<close>.\<close>

fun inner_for ::
  "Session \<Rightarrow> Route \<Rightarrow> Route list \<Rightarrow> obj list \<Rightarrow> (error + obj list) \<times> Session" where
  "inner_for db first [] results = (Inr results, db)"
| "inner_for db first (second # rest) results =
     (if dest_id first = source_id second then
        (case make_obj db first second of
           (Inl e, db') \<Rightarrow> (Inl e, db')
         | (Inr item, db') \<Rightarrow> inner_for db' first rest (results @ [item]))
      else inner_for db first rest results)"

text \<open>Lines 332-358: the outer loop over \<open>first_legs\<close>.\<close>

fun outer_for ::
  "Session \<Rightarrow> Route list \<Rightarrow> Route list \<Rightarrow> obj list \<Rightarrow> (error + obj list) \<times> Session" where
  "outer_for db [] second_legs results = (Inr results, db)"
| "outer_for db (first # rest) second_legs results =
     (case inner_for db first second_legs results of
        (Inl e, db') \<Rightarrow> (Inl e, db')
      | (Inr results', db') \<Rightarrow> outer_for db' rest second_legs results')"

text \<open>
  The whole function. \<open>via_ids\<close> is \<open>list(set(...))\<close>: a duplicate-free list in an
  order the code does not control; it is only used for membership.
\<close>

definition get_connecting_flights ::
  "Session \<Rightarrow> string \<Rightarrow> string \<Rightarrow> string \<Rightarrow> string \<Rightarrow> int \<Rightarrow> int
     \<Rightarrow> (error + obj list \<times> int) \<times> Session" where
  "get_connecting_flights db city1 country1 city2 country2 page per_page =
     (let offset = (page - 1) * per_page;
          (dep_airports, db1) =
             all_airports_ilike db (''%'' @ city1 @ ''%'') (''%'' @ country1 @ ''%'');
          dep_ids = map airport_id dep_airports;
          (arr_airports, db2) =
             all_airports_ilike db1 (''%'' @ city2 @ ''%'') (''%'' @ country2 @ ''%'');
          arr_ids = map airport_id arr_airports
      in if dep_ids = [] \<or> arr_ids = [] then (Inr ([], 0), db2)
         else
           (let (first_legs, db3) = all_routes_from db2 dep_ids
            in if first_legs = [] then (Inr ([], 0), db3)
               else
                 (let via_ids = remdups (map dest_id first_legs);
                      (second_legs, db4) = all_routes_from_to db3 via_ids arr_ids
                  in (case outer_for db4 first_legs second_legs [] of
                        (Inl e, db5) \<Rightarrow> (Inl e, db5)
                      | (Inr results, db5) \<Rightarrow>
                          (let total = int (length results);
                               paginated = py_slice results offset (offset + per_page)
                           in (Inr (paginated, total), db5))))))"

section \<open>connecting_flights (main.py)\<close>

text \<open>
  The GET handler. It calls the search with \<open>page\<close> only, so \<open>per_page\<close> is the default 25
  of the signature of get_connecting_flights. The template context keeps the entries
  computed from the search; the request object and the fixed part of the title are left
  out, the title is kept as the two city names it is formatted from. The pair returned by
  the search is bound to \<open>items\<close> and \<open>total\<close>.
\<close>

record template_context =
  ctx_items :: "obj list"
  ctx_total :: int
  ctx_page :: int
  ctx_pages :: int
  ctx_title :: "string \<times> string"
  ctx_type :: string

datatype response = TemplateResponse string "template_context option"

definition connecting_flights ::
  "Session \<Rightarrow> string option \<Rightarrow> string option \<Rightarrow> string option \<Rightarrow> string option \<Rightarrow> int
     \<Rightarrow> (error + response) \<times> Session" where
  "connecting_flights db city1 country1 city2 country2 page =
     (case (city1, country1, city2, country2) of
        (Some c1, Some k1, Some c2, Some k2) \<Rightarrow>
          (case get_connecting_flights db c1 k1 c2 k2 page 25 of
             (Inl e, db') \<Rightarrow> (Inl e, db')
           | (Inr (items, total_count), db') \<Rightarrow>
               (let total = total_count; pages = (total + 24) div 25
                in (Inr (TemplateResponse ''results_table.html''
                      (Some \<lparr>ctx_items = items, ctx_total = total, ctx_page = page,
                             ctx_pages = pages, ctx_title = (c1, c2),
                             ctx_type = ''connecting''\<rparr>)), db')))
      | _ \<Rightarrow> (Inr (TemplateResponse ''connecting_flights.html'' None), db))"

section \<open>Notions used to state the properties\<close>

text \<open>The airport ids a city and country resolve to: the origin or the destination set.\<close>

definition matching_ids :: "Session \<Rightarrow> string \<Rightarrow> string \<Rightarrow> int list" where
  "matching_ids db c k =
     map airport_id (fst (all_airports_ilike db (''%'' @ c @ ''%'') (''%'' @ k @ ''%'')))"

text \<open>The first legs and the second legs of a search, in the order they are fetched.\<close>

definition first_legs_of :: "Session \<Rightarrow> string \<Rightarrow> string \<Rightarrow> Route list" where
  "first_legs_of db c1 k1 = fst (all_routes_from db (matching_ids db c1 k1))"

definition second_legs_of ::
  "Session \<Rightarrow> string \<Rightarrow> string \<Rightarrow> string \<Rightarrow> string \<Rightarrow> Route list" where
  "second_legs_of db c1 k1 c2 k2 =
     fst (all_routes_from_to db (remdups (map dest_id (first_legs_of db c1 k1)))
            (matching_ids db c2 k2))"

text \<open>The ordered pairs (first leg, second leg) that satisfy the join predicate.\<close>

definition join_pairs :: "Route list \<Rightarrow> Route list \<Rightarrow> (Route \<times> Route) list" where
  "join_pairs firsts seconds =
     concat (map (\<lambda>f. map (Pair f) (filter (\<lambda>s. dest_id f = source_id s) seconds)) firsts)"

text \<open>
  The number of ordered pairs (first leg, second leg) that satisfy the join predicate,
  a leg being a position in the fetched list, so that two rows with equal columns are
  two legs.
\<close>

definition join_count :: "Route list \<Rightarrow> Route list \<Rightarrow> nat" where
  "join_count firsts seconds =
     card {(i, j). i < length firsts \<and> j < length seconds \<and>
                   dest_id (firsts ! i) = source_id (seconds ! j)}"

text \<open>The outcome of building the object of a pair of legs over a table of airports.\<close>

definition obj_for :: "Airport list \<Rightarrow> Route \<times> Route \<Rightarrow> error + obj" where
  "obj_for rows p =
     build_obj (fst p) (snd p) (airport_with_id rows (source_id (fst p)))
       (airport_with_id rows (dest_id (fst p))) (airport_with_id rows (dest_id (snd p)))"


text \<open>The values of a list of outcomes, or the first error in it.\<close>

fun all_or_error :: "('e + 'a) list \<Rightarrow> 'e + 'a list" where
  "all_or_error [] = Inr []"
| "all_or_error (x # xs) =
     (case x of Inl e \<Rightarrow> Inl e
      | Inr v \<Rightarrow> (case all_or_error xs of Inl e \<Rightarrow> Inl e | Inr vs \<Rightarrow> Inr (v # vs)))"

text \<open>The full list a search materialises before it is sliced.\<close>

definition all_results ::
  "Session \<Rightarrow> string \<Rightarrow> string \<Rightarrow> string \<Rightarrow> string \<Rightarrow> error + obj list" where
  "all_results db c1 k1 c2 k2 =
     all_or_error (map (obj_for (airports db))
       (join_pairs (first_legs_of db c1 k1) (second_legs_of db c1 k1 c2 k2)))"

text \<open>The items of one page of a search.\<close>

definition page_items ::
  "Session \<Rightarrow> string \<Rightarrow> string \<Rightarrow> string \<Rightarrow> string \<Rightarrow> int \<Rightarrow> int \<Rightarrow> obj list" where
  "page_items db c1 k1 c2 k2 per_page page =
     (case fst (get_connecting_flights db c1 k1 c2 k2 page per_page) of
        Inl e \<Rightarrow> []
      | Inr (items, total_count) \<Rightarrow> items)"

text \<open>
  The display codes as the specification words them: the IATA code when it is not
  null, else the ICAO code when it is not null, else "N/A"; the airline code unless
  it is null, then "Unknown".
\<close>

definition claimed_airport_code :: "Airport \<Rightarrow> string" where
  "claimed_airport_code a =
     (case iata a of Some c \<Rightarrow> c
      | None \<Rightarrow> (case icao a of Some c \<Rightarrow> c | None \<Rightarrow> ''N/A''))"

definition claimed_airline_code :: "Route \<Rightarrow> string" where
  "claimed_airline_code r = (case airline_code r of Some c \<Rightarrow> c | None \<Rightarrow> ''Unknown'')"

text \<open>The display codes with a code counted as present when it is neither null nor empty.\<close>

definition present :: "string option \<Rightarrow> bool" where
  "present x = (case x of None \<Rightarrow> False | Some s \<Rightarrow> s \<noteq> [])"

definition display_airport_code :: "Airport \<Rightarrow> string" where
  "display_airport_code a =
     (if present (iata a) then the (iata a)
      else if present (icao a) then the (icao a) else ''N/A'')"

definition display_airline_code :: "Route \<Rightarrow> string" where
  "display_airline_code r =
     (if present (airline_code r) then the (airline_code r) else ''Unknown'')"

section \<open>A sample dataset\<close>

text \<open>
  Berlin has one airport, Singapore one; two zero-stop routes of different airlines
  (one with an empty airline code) lead from Berlin to Doha, one zero-stop route from
  Doha to Singapore, one directly from Berlin to Singapore, and one route from Berlin
  to Doha has a stop. Doha has no IATA code.
\<close>

definition example_airports :: "Airport list" where
  "example_airports =
     [\<lparr>airport_id = 1, city = Some ''Berlin'', country = Some ''Germany'',
        iata = Some ''BER'', icao = Some ''EDDB''\<rparr>,
      \<lparr>airport_id = 2, city = Some ''Doha'', country = Some ''Qatar'',
        iata = None, icao = Some ''OTHH''\<rparr>,
      \<lparr>airport_id = 3, city = Some ''Singapore'', country = Some ''Singapore'',
        iata = Some ''SIN'', icao = Some ''WSSS''\<rparr>]"

definition example_route :: "int \<Rightarrow> string \<Rightarrow> int \<Rightarrow> int \<Rightarrow> int \<Rightarrow> Route" where
  "example_route i code src dst n =
     \<lparr>route_id = i, airline_code = Some code, airline_id = None,
      source_id = Some src, dest_id = Some dst, stops = Some n\<rparr>"

definition example_routes :: "Route list" where
  "example_routes =
     [example_route 1 ''QR'' 1 2 0, example_route 2 [] 1 2 0, example_route 3 ''SQ'' 2 3 0,
      example_route 4 ''SQ'' 1 3 0, example_route 5 ''LH'' 1 2 1]"

definition example_db :: Session where
  "example_db = \<lparr>airports = example_airports, routes = example_routes, executed = []\<rparr>"

definition example_item :: "string \<Rightarrow> obj" where
  "example_item code =
     \<lparr>airline1 = code, from1 = ''BER'', from_city = Some ''Berlin'',
      via = ''OTHH'', via_city = Some ''Doha'', airline2 = ''SQ'',
      to = ''SIN'', to_city = Some ''Singapore''\<rparr>"

definition example_context :: template_context where
  "example_context =
     \<lparr>ctx_items = [example_item ''QR'', example_item ''Unknown''], ctx_total = 2,
      ctx_page = 1, ctx_pages = 1, ctx_title = (''berlin'', ''singapore''),
      ctx_type = ''connecting''\<rparr>"

section \<open>The loops\<close>

lemma make_obj_fst: "fst (make_obj db f s) = obj_for (airports db) (f, s)"
  by (simp add: make_obj_def first_airport_by_id_def obj_for_def)

lemma make_obj_airports: "airports (snd (make_obj db f s)) = airports db"
  by (simp add: make_obj_def first_airport_by_id_def)

lemma make_obj_routes: "routes (snd (make_obj db f s)) = routes db"
  by (simp add: make_obj_def first_airport_by_id_def)


lemma all_or_error_append:
  "all_or_error (xs @ ys) =
     (case all_or_error xs of Inl e \<Rightarrow> Inl e
      | Inr vs \<Rightarrow> (case all_or_error ys of Inl e \<Rightarrow> Inl e | Inr ws \<Rightarrow> Inr (vs @ ws)))"
  by (induction xs) (auto split: sum.splits)

lemma all_or_error_map_Inr: "all_or_error (map Inr vs) = Inr vs"
  by (induction vs) simp_all

lemma all_or_error_InrD: "all_or_error xs = Inr vs \<Longrightarrow> xs = map Inr vs"
  by (induction xs arbitrary: vs) (auto split: sum.splits)

lemma all_or_error_Inr: "all_or_error xs = Inr vs \<longleftrightarrow> xs = map Inr vs"
  using all_or_error_InrD all_or_error_map_Inr by blast

lemma inner_for_airports: "airports (snd (inner_for db f ss acc)) = airports db"
proof (induction ss arbitrary: db acc)
  case Nil
  show ?case by simp
next
  case (Cons s ss)
  show ?case
  proof (cases "dest_id f = source_id s")
    case False
    then show ?thesis using Cons.IH by simp
  next
    case True
    obtain r db' where m: "make_obj db f s = (r, db')" by (cases "make_obj db f s")
    have a: "airports db' = airports db" using make_obj_airports [of db f s] m by simp
    show ?thesis
    proof (cases r)
      case (Inl e)
      then show ?thesis using True m a by simp
    next
      case (Inr item)
      then show ?thesis using True m a Cons.IH [of db' "acc @ [item]"] by simp
    qed
  qed
qed

lemma inner_for_routes: "routes (snd (inner_for db f ss acc)) = routes db"
proof (induction ss arbitrary: db acc)
  case Nil
  show ?case by simp
next
  case (Cons s ss)
  show ?case
  proof (cases "dest_id f = source_id s")
    case False
    then show ?thesis using Cons.IH by simp
  next
    case True
    obtain r db' where m: "make_obj db f s = (r, db')" by (cases "make_obj db f s")
    have a: "routes db' = routes db" using make_obj_routes [of db f s] m by simp
    show ?thesis
    proof (cases r)
      case (Inl e)
      then show ?thesis using True m a by simp
    next
      case (Inr item)
      then show ?thesis using True m a Cons.IH [of db' "acc @ [item]"] by simp
    qed
  qed
qed

lemma inner_for_fst:
  "fst (inner_for db f ss acc) =
     (case all_or_error (map (obj_for (airports db))
             (map (Pair f) (filter (\<lambda>s. dest_id f = source_id s) ss))) of
        Inl e \<Rightarrow> Inl e
      | Inr new \<Rightarrow> Inr (acc @ new))"
proof (induction ss arbitrary: db acc)
  case Nil
  show ?case by simp
next
  case (Cons s ss)
  show ?case
  proof (cases "dest_id f = source_id s")
    case False
    then show ?thesis using Cons.IH by simp
  next
    case True
    obtain r db' where m: "make_obj db f s = (r, db')" by (cases "make_obj db f s")
    have a: "airports db' = airports db" using make_obj_airports [of db f s] m by simp
    have r: "obj_for (airports db) (f, s) = r" using make_obj_fst [of db f s] m by simp
    show ?thesis
    proof (cases r)
      case (Inl e)
      then show ?thesis using True m r by simp
    next
      case (Inr item)
      then show ?thesis using True m a r Cons.IH [of db' "acc @ [item]"]
        by (simp split: sum.splits)
    qed
  qed
qed


lemma outer_for_airports: "airports (snd (outer_for db fs ss acc)) = airports db"
proof (induction fs arbitrary: db acc)
  case Nil
  show ?case by simp
next
  case (Cons f fs)
  obtain r db' where i: "inner_for db f ss acc = (r, db')" by (cases "inner_for db f ss acc")
  have a: "airports db' = airports db" using inner_for_airports [of db f ss acc] i by simp
  show ?case
  proof (cases r)
    case (Inl e)
    then show ?thesis using i a by simp
  next
    case (Inr res)
    then show ?thesis using i a Cons.IH [of db' res] by simp
  qed
qed

lemma outer_for_routes: "routes (snd (outer_for db fs ss acc)) = routes db"
proof (induction fs arbitrary: db acc)
  case Nil
  show ?case by simp
next
  case (Cons f fs)
  obtain r db' where i: "inner_for db f ss acc = (r, db')" by (cases "inner_for db f ss acc")
  have a: "routes db' = routes db" using inner_for_routes [of db f ss acc] i by simp
  show ?case
  proof (cases r)
    case (Inl e)
    then show ?thesis using i a by simp
  next
    case (Inr res)
    then show ?thesis using i a Cons.IH [of db' res] by simp
  qed
qed

lemma join_pairs_Nil: "join_pairs [] ss = []"
  by (simp add: join_pairs_def)

lemma join_pairs_Cons:
  "join_pairs (f # fs) ss =
     map (Pair f) (filter (\<lambda>s. dest_id f = source_id s) ss) @ join_pairs fs ss"
  by (simp add: join_pairs_def)

lemma join_pairs_no_seconds: "join_pairs fs [] = []"
  by (simp add: join_pairs_def)

lemma outer_for_fst:
  "fst (outer_for db fs ss acc) =
     (case all_or_error (map (obj_for (airports db)) (join_pairs fs ss)) of
        Inl e \<Rightarrow> Inl e
      | Inr new \<Rightarrow> Inr (acc @ new))"
proof (induction fs arbitrary: db acc)
  case Nil
  show ?case by (simp add: join_pairs_Nil)
next
  case (Cons f fs)
  obtain r db' where i: "inner_for db f ss acc = (r, db')" by (cases "inner_for db f ss acc")
  have a: "airports db' = airports db" using inner_for_airports [of db f ss acc] i by simp
  have r: "r = (case all_or_error (map (obj_for (airports db))
             (map (Pair f) (filter (\<lambda>s. dest_id f = source_id s) ss))) of
        Inl e \<Rightarrow> Inl e
      | Inr new \<Rightarrow> Inr (acc @ new))"
    using inner_for_fst [of db f ss acc] i by simp
  show ?case
  proof (cases r)
    case (Inl e)
    then show ?thesis using i r
      by (simp add: join_pairs_Cons all_or_error_append split: sum.splits)
  next
    case (Inr res)
    then show ?thesis using i a r Cons.IH [of db' res]
      by (simp add: join_pairs_Cons all_or_error_append split: sum.splits)
  qed
qed


section \<open>The outcome of a search\<close>

lemma first_legs_of_no_origin: "matching_ids db c1 k1 = [] \<Longrightarrow> first_legs_of db c1 k1 = []"
  by (simp add: first_legs_of_def all_routes_from_def sql_in_def split: option.splits)

lemma second_legs_of_no_dest:
  "matching_ids db c2 k2 = [] \<Longrightarrow> second_legs_of db c1 k1 c2 k2 = []"
  by (simp add: second_legs_of_def all_routes_from_to_def sql_in_def split: option.splits)

lemma all_results_early:
  "matching_ids db c1 k1 = [] \<or> matching_ids db c2 k2 = [] \<or> first_legs_of db c1 k1 = [] \<Longrightarrow>
   all_results db c1 k1 c2 k2 = Inr []"
  by (auto simp: all_results_def first_legs_of_no_origin second_legs_of_no_dest
      join_pairs_Nil join_pairs_no_seconds)

lemma py_slice_Nil: "py_slice [] a b = []"
  by (simp add: py_slice_def)

lemma get_connecting_flights_early:
  "matching_ids db c1 k1 = [] \<or> matching_ids db c2 k2 = [] \<or> first_legs_of db c1 k1 = [] \<Longrightarrow>
   fst (get_connecting_flights db c1 k1 c2 k2 page per_page) = Inr ([], 0)"
  by (auto simp: get_connecting_flights_def matching_ids_def first_legs_of_def
      all_airports_ilike_def all_routes_from_def Let_def)

lemma get_connecting_flights_main:
  "matching_ids db c1 k1 \<noteq> [] \<Longrightarrow> matching_ids db c2 k2 \<noteq> [] \<Longrightarrow> first_legs_of db c1 k1 \<noteq> [] \<Longrightarrow>
   get_connecting_flights db c1 k1 c2 k2 page per_page =
     (case outer_for
        (db\<lparr>executed := executed db @
           [SelectAirportsIlike (''%'' @ c1 @ ''%'') (''%'' @ k1 @ ''%''),
            SelectAirportsIlike (''%'' @ c2 @ ''%'') (''%'' @ k2 @ ''%''),
            SelectRoutesFrom (matching_ids db c1 k1),
            SelectRoutesFromTo (remdups (map dest_id (first_legs_of db c1 k1)))
              (matching_ids db c2 k2)]\<rparr>)
        (first_legs_of db c1 k1) (second_legs_of db c1 k1 c2 k2) [] of
        (Inl e, db5) \<Rightarrow> (Inl e, db5)
      | (Inr results, db5) \<Rightarrow>
          (Inr (py_slice results ((page - 1) * per_page) ((page - 1) * per_page + per_page),
                int (length results)), db5))"
  by (simp add: get_connecting_flights_def matching_ids_def first_legs_of_def second_legs_of_def
      all_airports_ilike_def all_routes_from_def all_routes_from_to_def Let_def
      split: prod.splits sum.splits)

lemma get_connecting_flights_fst:
  "fst (get_connecting_flights db c1 k1 c2 k2 page per_page) =
     (case all_results db c1 k1 c2 k2 of
        Inl e \<Rightarrow> Inl e
      | Inr results \<Rightarrow>
          Inr (py_slice results ((page - 1) * per_page) ((page - 1) * per_page + per_page),
               int (length results)))"
proof (cases "matching_ids db c1 k1 = [] \<or> matching_ids db c2 k2 = [] \<or> first_legs_of db c1 k1 = []")
  case True
  then show ?thesis
    using get_connecting_flights_early [OF True] all_results_early [OF True]
    by (simp add: py_slice_Nil)
next
  case False
  then have m: "matching_ids db c1 k1 \<noteq> []" "matching_ids db c2 k2 \<noteq> []" "first_legs_of db c1 k1 \<noteq> []"
    by simp_all
  show ?thesis
    unfolding get_connecting_flights_main [OF m] all_results_def
    by (simp add: split_def outer_for_fst split: sum.splits prod.splits)
qed

section \<open>The statements a search executes\<close>

lemma get_connecting_flights_executed_early:
  "matching_ids db c1 k1 = [] \<or> matching_ids db c2 k2 = [] \<or> first_legs_of db c1 k1 = [] \<Longrightarrow>
   executed (snd (get_connecting_flights db c1 k1 c2 k2 page per_page)) =
     executed db @
       [SelectAirportsIlike (''%'' @ c1 @ ''%'') (''%'' @ k1 @ ''%''),
        SelectAirportsIlike (''%'' @ c2 @ ''%'') (''%'' @ k2 @ ''%'')] @
       (if matching_ids db c1 k1 = [] \<or> matching_ids db c2 k2 = [] then []
        else [SelectRoutesFrom (matching_ids db c1 k1)])"
  by (auto simp: get_connecting_flights_def matching_ids_def first_legs_of_def
      all_airports_ilike_def all_routes_from_def Let_def)


section \<open>The legs of a returned itinerary\<close>

lemma join_pairs_mem:
  "(f, s) \<in> set (join_pairs fs ss) \<longleftrightarrow> f \<in> set fs \<and> s \<in> set ss \<and> dest_id f = source_id s"
  by (auto simp: join_pairs_def)

lemma first_legs_of_mem:
  "f \<in> set (first_legs_of db c1 k1) \<longleftrightarrow>
     f \<in> set (routes db) \<and> source_id f \<in> Some ` set (matching_ids db c1 k1) \<and> stops f = Some 0"
  by (auto simp: first_legs_of_def all_routes_from_def sql_in_def split: option.splits)

lemma second_legs_of_mem:
  "s \<in> set (second_legs_of db c1 k1 c2 k2) \<longleftrightarrow>
     s \<in> set (routes db) \<and> source_id s \<in> set (map dest_id (first_legs_of db c1 k1)) \<and>
     source_id s \<noteq> None \<and>
     dest_id s \<in> Some ` set (matching_ids db c2 k2) \<and> stops s = Some 0"
  by (auto simp: second_legs_of_def all_routes_from_to_def sql_in_def split: option.splits)

lemma set_py_slice: "set (py_slice xs a b) \<subseteq> set xs"
  unfolding py_slice_def Let_def
  by (meson in_set_dropD in_set_takeD subsetI)

lemma get_connecting_flights_InrD:
  assumes "fst (get_connecting_flights db c1 k1 c2 k2 page per_page) = Inr (items, total_count)"
  obtains results where
    "all_results db c1 k1 c2 k2 = Inr results"
    "items = py_slice results ((page - 1) * per_page) ((page - 1) * per_page + per_page)"
    "total_count = int (length results)"
    "map (obj_for (airports db))
       (join_pairs (first_legs_of db c1 k1) (second_legs_of db c1 k1 c2 k2)) = map Inr results"
proof -
  obtain results where r: "all_results db c1 k1 c2 k2 = Inr results"
    using assms unfolding get_connecting_flights_fst
    by (cases "all_results db c1 k1 c2 k2") simp_all
  have "items = py_slice results ((page - 1) * per_page) ((page - 1) * per_page + per_page)"
    and "total_count = int (length results)"
    using assms r unfolding get_connecting_flights_fst by simp_all
  moreover have "map (obj_for (airports db))
       (join_pairs (first_legs_of db c1 k1) (second_legs_of db c1 k1 c2 k2)) = map Inr results"
    using r unfolding all_results_def by (rule all_or_error_InrD)
  ultimately show ?thesis using that r by blast
qed

text \<open>
  C1. Every itinerary that get_connecting_flights returns is the object built from a
  pair of routes (first, second) of the dataset with first.dest_id == second.source_id,
  first.source_id in the origin airport set, second.dest_id in the destination airport
  set, and stops == 0 on both routes.
\<close>

theorem returned_itinerary_legs:
  assumes "fst (get_connecting_flights db city1 country1 city2 country2 page per_page)
             = Inr (items, total_count)"
    and "item \<in> set items"
  shows "\<exists>first second.
           first \<in> set (routes db) \<and> second \<in> set (routes db) \<and>
           obj_for (airports db) (first, second) = Inr item \<and>
           dest_id first = source_id second \<and>
           source_id first \<in> Some ` set (matching_ids db city1 country1) \<and>
           dest_id second \<in> Some ` set (matching_ids db city2 country2) \<and>
           stops first = Some 0 \<and> stops second = Some 0"
proof -
  let ?F = "first_legs_of db city1 country1"
  let ?S = "second_legs_of db city1 country1 city2 country2"
  from assms(1) obtain results where
    items: "items = py_slice results ((page - 1) * per_page) ((page - 1) * per_page + per_page)"
    and m: "map (obj_for (airports db)) (join_pairs ?F ?S) = map Inr results"
    by (rule get_connecting_flights_InrD)
  have "item \<in> set results" using assms(2) items set_py_slice by fastforce
  then have "Inr item \<in> set (map (obj_for (airports db)) (join_pairs ?F ?S))"
    unfolding m by simp
  then obtain p where p: "p \<in> set (join_pairs ?F ?S)" "obj_for (airports db) p = Inr item"
    by auto
  obtain f s where fs: "p = (f, s)" by (cases p)
  have "f \<in> set ?F" "s \<in> set ?S" "dest_id f = source_id s"
    using p(1) fs join_pairs_mem by simp_all
  then show ?thesis
    using p(2) fs first_legs_of_mem [of f db city1 country1]
      second_legs_of_mem [of s db city1 country1 city2 country2]
    by blast
qed

lemma example_search:
  "fst (get_connecting_flights example_db ''berlin'' ''ger'' ''singapore'' [] 1 25)
     = Inr ([example_item ''QR'', example_item ''Unknown''], 2)"
  by code_simp

theorem returned_itinerary_legs_witness:
  "fst (get_connecting_flights example_db ''berlin'' ''ger'' ''singapore'' [] 1 25)
     = Inr ([example_item ''QR'', example_item ''Unknown''], 2) \<and>
   example_item ''QR'' \<in> set [example_item ''QR'', example_item ''Unknown''] \<and>
   (\<exists>first second.
      first \<in> set (routes example_db) \<and> second \<in> set (routes example_db) \<and>
      obj_for (airports example_db) (first, second) = Inr (example_item ''QR'') \<and>
      dest_id first = source_id second \<and>
      source_id first \<in> Some ` set (matching_ids example_db ''berlin'' ''ger'') \<and>
      dest_id second \<in> Some ` set (matching_ids example_db ''singapore'' []) \<and>
      stops first = Some 0 \<and> stops second = Some 0)"
proof -
  have h2: "example_item ''QR'' \<in> set [example_item ''QR'', example_item ''Unknown'']"
    by simp
  show ?thesis
    using example_search h2 returned_itinerary_legs [OF example_search h2] by blast
qed

section \<open>The total count\<close>

lemma length_join_pairs:
  "length (join_pairs fs ss) =
     (\<Sum>i<length fs. length (filter (\<lambda>s. dest_id (fs ! i) = source_id s) ss))"
proof -
  have "length (join_pairs fs ss) =
      sum_list (map (\<lambda>f. length (filter (\<lambda>s. dest_id f = source_id s) ss)) fs)"
    by (simp add: join_pairs_def length_concat comp_def)
  also have "\<dots> = (\<Sum>i<length fs. length (filter (\<lambda>s. dest_id (fs ! i) = source_id s) ss))"
    by (simp add: sum_list_sum_nth atLeast0LessThan)
  finally show ?thesis .
qed

lemma join_count_sum:
  "join_count fs ss =
     (\<Sum>i<length fs. card {j. j < length ss \<and> dest_id (fs ! i) = source_id (ss ! j)})"
proof -
  have "{(i, j). i < length fs \<and> j < length ss \<and> dest_id (fs ! i) = source_id (ss ! j)} =
      (SIGMA i:{..<length fs}. {j. j < length ss \<and> dest_id (fs ! i) = source_id (ss ! j)})"
    by auto
  then show ?thesis
    unfolding join_count_def by simp
qed

lemma length_join_pairs_count: "length (join_pairs fs ss) = join_count fs ss"
  unfolding length_join_pairs join_count_sum
  by (simp add: length_filter_conv_card)

text \<open>
  C2. The total count that get_connecting_flights returns is the number of ordered
  pairs (first leg, second leg) with first.dest_id == second.source_id, one itinerary
  per pair, and every other page and per_page give the same total.
\<close>

theorem total_is_join_count:
  assumes "fst (get_connecting_flights db city1 country1 city2 country2 page per_page)
             = Inr (items, total_count)"
  shows "total_count = int (join_count (first_legs_of db city1 country1)
                               (second_legs_of db city1 country1 city2 country2)) \<and>
         total_count = int (length (join_pairs (first_legs_of db city1 country1)
                               (second_legs_of db city1 country1 city2 country2))) \<and>
         (\<forall>page' per_page'. \<exists>items'.
            fst (get_connecting_flights db city1 country1 city2 country2 page' per_page')
              = Inr (items', total_count))"
proof -
  let ?F = "first_legs_of db city1 country1"
  let ?S = "second_legs_of db city1 country1 city2 country2"
  from assms obtain results where
    r: "all_results db city1 country1 city2 country2 = Inr results"
    and t: "total_count = int (length results)"
    and m: "map (obj_for (airports db)) (join_pairs ?F ?S) = map Inr results"
    by (rule get_connecting_flights_InrD)
  have "length (join_pairs ?F ?S) = length results"
    using arg_cong [OF m, of length] by simp
  then have n: "total_count = int (length (join_pairs ?F ?S))" using t by simp
  have "\<exists>items'. fst (get_connecting_flights db city1 country1 city2 country2 page' per_page')
              = Inr (items', total_count)" for page' per_page'
    unfolding get_connecting_flights_fst using r t by simp
  then show ?thesis using n length_join_pairs_count [of ?F ?S] by simp
qed

theorem total_is_join_count_witness:
  "fst (get_connecting_flights example_db ''berlin'' ''ger'' ''singapore'' [] 1 25)
     = Inr ([example_item ''QR'', example_item ''Unknown''], 2) \<and>
   (2::int) = int (join_count (first_legs_of example_db ''berlin'' ''ger'')
                 (second_legs_of example_db ''berlin'' ''ger'' ''singapore'' [])) \<and>
   (\<exists>items'. fst (get_connecting_flights example_db ''berlin'' ''ger'' ''singapore'' [] 2 1)
                = Inr (items', 2))"
  using example_search total_is_join_count [OF example_search] by blast

section \<open>Empty results\<close>

text \<open>
  C3. If the origin airport set is empty, or the destination airport set is empty, or
  no zero-stop route leaves the origin set, get_connecting_flights returns the empty
  list and total 0, and the later phases do not run: it executes the two airport
  queries, the first-leg query only when both sets are non-empty, and neither the
  second-leg query nor any airport lookup.
\<close>

theorem empty_short_circuit:
  assumes "matching_ids db city1 country1 = [] \<or> matching_ids db city2 country2 = [] \<or>
           first_legs_of db city1 country1 = []"
  shows "fst (get_connecting_flights db city1 country1 city2 country2 page per_page)
           = Inr ([], 0) \<and>
         executed (snd (get_connecting_flights db city1 country1 city2 country2 page per_page)) =
           executed db @
             [SelectAirportsIlike (''%'' @ city1 @ ''%'') (''%'' @ country1 @ ''%''),
              SelectAirportsIlike (''%'' @ city2 @ ''%'') (''%'' @ country2 @ ''%'')] @
             (if matching_ids db city1 country1 = [] \<or> matching_ids db city2 country2 = []
              then [] else [SelectRoutesFrom (matching_ids db city1 country1)])"
  using get_connecting_flights_early [OF assms] get_connecting_flights_executed_early [OF assms]
  by simp

lemma example_no_first_legs:
  "matching_ids example_db ''doha'' [] = [2] \<and> matching_ids example_db ''berlin'' [] = [1] \<and>
   first_legs_of example_db ''singapore'' [] = []"
  by code_simp

theorem empty_short_circuit_witness:
  "fst (get_connecting_flights example_db ''singapore'' [] ''berlin'' [] 1 25) = Inr ([], 0) \<and>
   executed (snd (get_connecting_flights example_db ''singapore'' [] ''berlin'' [] 1 25)) =
     [SelectAirportsIlike ''%singapore%'' ''%%'', SelectAirportsIlike ''%berlin%'' ''%%'',
      SelectRoutesFrom [3]]"
proof -
  have h: "matching_ids example_db ''singapore'' [] = [] \<or>
           matching_ids example_db ''berlin'' [] = [] \<or>
           first_legs_of example_db ''singapore'' [] = []"
    using example_no_first_legs by simp
  have m: "matching_ids example_db ''singapore'' [] = [3]"
    "matching_ids example_db ''berlin'' [] = [1]" "executed example_db = []"
    by code_simp+
  show ?thesis
    using empty_short_circuit [OF h, of 1 25] m by simp
qed

section \<open>The pager\<close>

lemma py_slice_nonneg:
  assumes "0 \<le> a" "0 \<le> n"
  shows "py_slice xs a (a + n) = take (nat n) (drop (nat a) xs)"
proof (cases "a \<le> int (length xs)")
  case False
  then show ?thesis using assms by (simp add: py_slice_def py_index_def Let_def)
next
  case True
  show ?thesis
  proof (cases "a + n \<le> int (length xs)")
    case True
    then show ?thesis using assms \<open>a \<le> int (length xs)\<close>
      by (simp add: py_slice_def py_index_def Let_def)
  next
    case False
    then have "length (drop (nat a) xs) \<le> nat n" using assms by simp
    then have "take (nat n) (drop (nat a) xs) = drop (nat a) xs" by simp
    moreover have "take (nat (int (length xs) - a)) (drop (nat a) xs) = drop (nat a) xs"
      using assms by simp
    ultimately show ?thesis using assms False True
      by (simp add: py_slice_def py_index_def Let_def min_def)
  qed
qed

lemma py_slice_page_zero:
  assumes "1 \<le> per_page"
  shows "py_slice xs ((0 - 1) * per_page) ((0 - 1) * per_page + per_page) = []"
  using assms by (simp add: py_slice_def py_index_def Let_def)

lemma concat_chunks:
  "concat (map (\<lambda>i. take m (drop (i * m) xs)) [0..<k]) = take (k * m) xs"
proof (induction k)
  case 0
  show ?case by simp
next
  case (Suc k)
  have "Suc k * m = k * m + m" by simp
  then have "take (Suc k * m) xs = take (k * m) xs @ take m (drop (k * m) xs)"
    using take_add [of "k * m" m xs] by presburger
  then show ?case using Suc by simp
qed

lemma upto_from_one: "[1..int k] = map (\<lambda>i. int i + 1) [0..<k]"
proof (induction k)
  case 0
  show ?case by simp
next
  case (Suc k)
  have "[1..int (Suc k)] = [1..int k] @ [int k + 1]"
    using upto_rec2 [of 1 "int k + 1"] by (simp add: add.commute)
  then show ?case using Suc by simp
qed

lemma py_slice_pages:
  assumes "1 \<le> per_page"
  shows "concat (map (\<lambda>page. py_slice xs ((page - 1) * per_page) ((page - 1) * per_page + per_page))
           [1..\<lceil>real (length xs) / real_of_int per_page\<rceil>]) = xs"
proof -
  define m where "m = nat per_page"
  define K where "K = \<lceil>real (length xs) / real_of_int per_page\<rceil>"
  define k where "k = nat K"
  have m: "0 < m" "per_page = int m" using assms by (simp_all add: m_def)
  have "0 \<le> real (length xs) / real_of_int per_page" using assms by simp
  then have K0: "0 \<le> K" unfolding K_def by linarith
  then have K: "K = int k" by (simp add: k_def)
  have "real (length xs) / real_of_int per_page \<le> real_of_int K"
    unfolding K_def by (rule le_of_int_ceiling)
  then have "real (length xs) \<le> real_of_int K * real_of_int per_page"
    using assms by (simp add: pos_divide_le_eq)
  then have "real (length xs) \<le> real (k * m)" using K m by simp
  then have len: "length xs \<le> k * m" using of_nat_le_iff by blast
  have page: "py_slice xs (int i * per_page) (int i * per_page + per_page)
      = take m (drop (i * m) xs)" for i
  proof -
    have "py_slice xs (int i * per_page) (int i * per_page + per_page)
        = take (nat per_page) (drop (nat (int i * per_page)) xs)"
      using assms by (intro py_slice_nonneg) simp_all
    moreover have "nat (int i * per_page) = i * m" using m by (simp add: nat_mult_distrib)
    ultimately show ?thesis by (simp add: m_def)
  qed
  have "concat (map (\<lambda>page. py_slice xs ((page - 1) * per_page) ((page - 1) * per_page + per_page))
           [1..K]) = concat (map (\<lambda>i. take m (drop (i * m) xs)) [0..<k])"
    unfolding K upto_from_one by (simp add: comp_def page del: upt_Suc)
  also have "\<dots> = take (k * m) xs" by (rule concat_chunks)
  also have "\<dots> = xs" using len by simp
  finally show ?thesis unfolding K_def .
qed

lemma page_items_slice:
  assumes "all_results db c1 k1 c2 k2 = Inr results"
  shows "page_items db c1 k1 c2 k2 per_page page =
           py_slice results ((page - 1) * per_page) ((page - 1) * per_page + per_page)"
  unfolding page_items_def get_connecting_flights_fst using assms by simp

lemma example_all_results:
  "all_results example_db ''berlin'' ''ger'' ''singapore'' [] =
     Inr [example_item ''QR'', example_item ''Unknown'']"
  by code_simp

text \<open>
  C4. For per_page >= 1, the pages 1 up to ceil(total/per_page) of a search,
  concatenated in order, are the full unpaginated result list; the same holds for the
  slices the pager takes of any list.
\<close>

theorem pages_concat_to_all:
  assumes "1 \<le> per_page"
    and "fst (get_connecting_flights db city1 country1 city2 country2 page per_page)
           = Inr (items, total_count)"
  shows "all_results db city1 country1 city2 country2 =
           Inr (concat (map (page_items db city1 country1 city2 country2 per_page)
                  [1..\<lceil>real_of_int total_count / real_of_int per_page\<rceil>])) \<and>
         concat (map (\<lambda>p. py_slice xs ((p - 1) * per_page) ((p - 1) * per_page + per_page))
                  [1..\<lceil>real (length xs) / real_of_int per_page\<rceil>]) = xs"
proof -
  from assms(2) obtain results where
    r: "all_results db city1 country1 city2 country2 = Inr results"
    and t: "total_count = int (length results)"
    by (rule get_connecting_flights_InrD)
  have p: "page_items db city1 country1 city2 country2 per_page =
      (\<lambda>p. py_slice results ((p - 1) * per_page) ((p - 1) * per_page + per_page))"
    by (rule ext) (rule page_items_slice [OF r])
  have "concat (map (page_items db city1 country1 city2 country2 per_page)
          [1..\<lceil>real_of_int total_count / real_of_int per_page\<rceil>]) = results"
    unfolding p using py_slice_pages [OF assms(1), of results] t by simp
  then show ?thesis using r py_slice_pages [OF assms(1), of xs] by simp
qed

lemma example_search_page2:
  "fst (get_connecting_flights example_db ''berlin'' ''ger'' ''singapore'' [] 2 1)
     = Inr ([example_item ''Unknown''], 2)"
  by code_simp

theorem pages_concat_to_all_witness:
  "(1::int) \<le> 1 \<and>
   fst (get_connecting_flights example_db ''berlin'' ''ger'' ''singapore'' [] 2 1)
     = Inr ([example_item ''Unknown''], 2) \<and>
   concat (map (page_items example_db ''berlin'' ''ger'' ''singapore'' [] 1) [1..2])
     = [example_item ''QR'', example_item ''Unknown'']"
proof -
  have h: "(1::int) \<le> 1" by simp
  have c: "\<lceil>real_of_int 2 / real_of_int 1\<rceil> = 2" by simp
  have "all_results example_db ''berlin'' ''ger'' ''singapore'' [] =
      Inr (concat (map (page_items example_db ''berlin'' ''ger'' ''singapore'' [] 1) [1..2]))"
    using pages_concat_to_all [OF h example_search_page2, of "[]"] unfolding c by simp
  then have "concat (map (page_items example_db ''berlin'' ''ger'' ''singapore'' [] 1) [1..2])
      = [example_item ''QR'', example_item ''Unknown'']"
    unfolding example_all_results by simp
  then show ?thesis using example_search_page2 by simp
qed

text \<open>
  C5. For page >= 1 and per_page >= 1, get_connecting_flights returns the contiguous
  part of the materialised result list that starts at offset (page-1)*per_page and has
  at most per_page elements, with the length of the full list as total.
\<close>

theorem page_is_contiguous_slice:
  assumes "1 \<le> page" and "1 \<le> per_page"
    and "fst (get_connecting_flights db city1 country1 city2 country2 page per_page)
           = Inr (items, total_count)"
  shows "\<exists>results. all_results db city1 country1 city2 country2 = Inr results \<and>
           items = take (nat per_page) (drop (nat ((page - 1) * per_page)) results) \<and>
           length items \<le> nat per_page \<and>
           total_count = int (length results)"
proof -
  from assms(3) obtain results where
    r: "all_results db city1 country1 city2 country2 = Inr results"
    and i: "items = py_slice results ((page - 1) * per_page) ((page - 1) * per_page + per_page)"
    and t: "total_count = int (length results)"
    by (rule get_connecting_flights_InrD)
  have "0 \<le> (page - 1) * per_page" using assms(1,2) by simp
  then have "items = take (nat per_page) (drop (nat ((page - 1) * per_page)) results)"
    using i assms(2) py_slice_nonneg [of "(page - 1) * per_page" per_page results] by simp
  then show ?thesis using r t by simp
qed

theorem page_is_contiguous_slice_witness:
  "(1::int) \<le> 2 \<and> (1::int) \<le> 1 \<and>
   fst (get_connecting_flights example_db ''berlin'' ''ger'' ''singapore'' [] 2 1)
     = Inr ([example_item ''Unknown''], 2) \<and>
   [example_item ''Unknown''] =
     take (nat 1) (drop (nat ((2 - 1) * 1)) [example_item ''QR'', example_item ''Unknown''])"
proof -
  have h1: "(1::int) \<le> 2" and h2: "(1::int) \<le> 1" by simp_all
  show ?thesis
    using example_search_page2 example_all_results
      page_is_contiguous_slice [OF h1 h2 example_search_page2]
    by simp
qed

text \<open>
  C9. For per_page >= 1, page 0 returns no itinerary, while the total is still the
  number of join pairs: the slice from -per_page to 0 is empty.
\<close>

theorem page_zero_is_empty:
  assumes "1 \<le> per_page"
    and "fst (get_connecting_flights db city1 country1 city2 country2 0 per_page)
           = Inr (items, total_count)"
  shows "items = [] \<and>
         total_count = int (join_count (first_legs_of db city1 country1)
                               (second_legs_of db city1 country1 city2 country2))"
proof -
  let ?F = "first_legs_of db city1 country1"
  let ?S = "second_legs_of db city1 country1 city2 country2"
  from assms(2) obtain results where
    i: "items = py_slice results ((0 - 1) * per_page) ((0 - 1) * per_page + per_page)"
    and t: "total_count = int (length results)"
    and m: "map (obj_for (airports db)) (join_pairs ?F ?S) = map Inr results"
    by (rule get_connecting_flights_InrD)
  have "length (join_pairs ?F ?S) = length results"
    using arg_cong [OF m, of length] by simp
  then show ?thesis
    using i t py_slice_page_zero [OF assms(1), of results] length_join_pairs_count [of ?F ?S]
    by simp
qed

lemma example_search_page0:
  "fst (get_connecting_flights example_db ''berlin'' ''ger'' ''singapore'' [] 0 1)
     = Inr ([], 2)"
  by code_simp

theorem page_zero_is_empty_witness:
  "(1::int) \<le> 1 \<and>
   fst (get_connecting_flights example_db ''berlin'' ''ger'' ''singapore'' [] 0 1)
     = Inr ([], 2) \<and>
   (2::int) = int (join_count (first_legs_of example_db ''berlin'' ''ger'')
                 (second_legs_of example_db ''berlin'' ''ger'' ''singapore'' []))"
proof -
  have h: "(1::int) \<le> 1" by simp
  show ?thesis
    using example_search_page0 page_zero_is_empty [OF h example_search_page0] by simp
qed

section \<open>The order of the results\<close>

text \<open>
  C10. The materialised list follows the nested loops: the itineraries are grouped by
  first leg in the order the first legs were fetched, and within a group follow the
  order the second legs were fetched; a page is the slice of that list.
\<close>

theorem results_in_nested_loop_order:
  assumes "fst (get_connecting_flights db city1 country1 city2 country2 page per_page)
             = Inr (items, total_count)"
  shows "\<exists>results.
           map Inr results =
             concat (map (\<lambda>first.
                       map (\<lambda>second. obj_for (airports db) (first, second))
                         (filter (\<lambda>second. dest_id first = source_id second)
                            (second_legs_of db city1 country1 city2 country2)))
                     (first_legs_of db city1 country1)) \<and>
           items = py_slice results ((page - 1) * per_page) ((page - 1) * per_page + per_page)"
proof -
  let ?F = "first_legs_of db city1 country1"
  let ?S = "second_legs_of db city1 country1 city2 country2"
  from assms obtain results where
    i: "items = py_slice results ((page - 1) * per_page) ((page - 1) * per_page + per_page)"
    and m: "map (obj_for (airports db)) (join_pairs ?F ?S) = map Inr results"
    by (rule get_connecting_flights_InrD)
  have "map (obj_for (airports db)) (join_pairs ?F ?S) =
      concat (map (\<lambda>first.
                       map (\<lambda>second. obj_for (airports db) (first, second))
                         (filter (\<lambda>second. dest_id first = source_id second) ?S)) ?F)"
    by (simp add: join_pairs_def map_concat comp_def)
  then show ?thesis using i m by metis
qed

theorem results_in_nested_loop_order_witness:
  "fst (get_connecting_flights example_db ''berlin'' ''ger'' ''singapore'' [] 2 1)
     = Inr ([example_item ''Unknown''], 2) \<and>
   (\<exists>results.
      map Inr results =
        concat (map (\<lambda>first.
                  map (\<lambda>second. obj_for (airports example_db) (first, second))
                    (filter (\<lambda>second. dest_id first = source_id second)
                       (second_legs_of example_db ''berlin'' ''ger'' ''singapore'' [])))
                (first_legs_of example_db ''berlin'' ''ger'')) \<and>
      [example_item ''Unknown''] = py_slice results ((2 - 1) * 1) ((2 - 1) * 1 + 1))"
  using example_search_page2 results_in_nested_loop_order [OF example_search_page2]
  by simp

section \<open>Display fields\<close>

lemma or_literal_airport:
  "or_literal (py_or (iata a) (icao a)) ''N/A'' = display_airport_code a"
  by (simp add: or_literal_def py_or_def display_airport_code_def present_def
      split: option.splits)

lemma or_literal_airline:
  "or_literal (airline_code r) ''Unknown'' = display_airline_code r"
  by (simp add: or_literal_def display_airline_code_def present_def split: option.splits)

lemma build_obj_InrD:
  assumes "build_obj f s x y z = Inr item"
  shows "\<exists>fa va ta. x = Some fa \<and> y = Some va \<and> z = Some ta \<and>
           from1 item = display_airport_code fa \<and> via item = display_airport_code va \<and>
           to item = display_airport_code ta \<and>
           airline1 item = display_airline_code f \<and> airline2 item = display_airline_code s"
  using assms
  by (auto simp: build_obj_def or_literal_airport or_literal_airline split: option.splits)

lemma returned_item_pair:
  assumes "fst (get_connecting_flights db c1 k1 c2 k2 page per_page) = Inr (items, total_count)"
    and "item \<in> set items"
  obtains f s where
    "f \<in> set (first_legs_of db c1 k1)" "s \<in> set (second_legs_of db c1 k1 c2 k2)"
    "dest_id f = source_id s" "obj_for (airports db) (f, s) = Inr item"
proof -
  let ?F = "first_legs_of db c1 k1" and ?S = "second_legs_of db c1 k1 c2 k2"
  from assms(1) obtain results where
    items: "items = py_slice results ((page - 1) * per_page) ((page - 1) * per_page + per_page)"
    and m: "map (obj_for (airports db)) (join_pairs ?F ?S) = map Inr results"
    by (rule get_connecting_flights_InrD)
  have "item \<in> set results" using assms(2) items set_py_slice by fastforce
  then have "Inr item \<in> set (map (obj_for (airports db)) (join_pairs ?F ?S))"
    unfolding m by simp
  then obtain p where p: "p \<in> set (join_pairs ?F ?S)" "obj_for (airports db) p = Inr item"
    by auto
  obtain f s where fs: "p = (f, s)" by (cases p)
  show ?thesis using that [of f s] p fs join_pairs_mem [of f s ?F ?S] by simp
qed

text \<open>
  C6, as it holds: for every returned itinerary, each of the three airport codes is
  the airport's IATA code when that is neither null nor empty, otherwise its ICAO code
  when that is neither null nor empty, otherwise "N/A"; each of the two airline codes
  is the leg's airline code when that is neither null nor empty, otherwise "Unknown".
\<close>

theorem display_codes:
  assumes "fst (get_connecting_flights db city1 country1 city2 country2 page per_page)
             = Inr (items, total_count)"
    and "item \<in> set items"
  shows "\<exists>first second fa va ta.
           first \<in> set (routes db) \<and> second \<in> set (routes db) \<and>
           dest_id first = source_id second \<and>
           airport_with_id (airports db) (source_id first) = Some fa \<and>
           airport_with_id (airports db) (dest_id first) = Some va \<and>
           airport_with_id (airports db) (dest_id second) = Some ta \<and>
           from1 item = display_airport_code fa \<and> via item = display_airport_code va \<and>
           to item = display_airport_code ta \<and>
           airline1 item = display_airline_code first \<and>
           airline2 item = display_airline_code second"
proof -
  from assms obtain f s where
    f: "f \<in> set (first_legs_of db city1 country1)"
    and s: "s \<in> set (second_legs_of db city1 country1 city2 country2)"
    and j: "dest_id f = source_id s"
    and b: "obj_for (airports db) (f, s) = Inr item"
    by (rule returned_item_pair)
  have "f \<in> set (routes db)" "s \<in> set (routes db)"
    using f s first_legs_of_mem second_legs_of_mem by blast+
  moreover obtain fa va ta where
    "airport_with_id (airports db) (source_id f) = Some fa"
    "airport_with_id (airports db) (dest_id f) = Some va"
    "airport_with_id (airports db) (dest_id s) = Some ta"
    "from1 item = display_airport_code fa" "via item = display_airport_code va"
    "to item = display_airport_code ta"
    "airline1 item = display_airline_code f" "airline2 item = display_airline_code s"
    using build_obj_InrD [OF b [unfolded obj_for_def fst_conv snd_conv]] by blast
  ultimately show ?thesis using j by blast
qed

theorem display_codes_witness:
  "fst (get_connecting_flights example_db ''berlin'' ''ger'' ''singapore'' [] 2 1)
     = Inr ([example_item ''Unknown''], 2) \<and>
   example_item ''Unknown'' \<in> set [example_item ''Unknown''] \<and>
   (\<exists>first second fa va ta.
      first \<in> set (routes example_db) \<and> second \<in> set (routes example_db) \<and>
      dest_id first = source_id second \<and>
      airport_with_id (airports example_db) (source_id first) = Some fa \<and>
      airport_with_id (airports example_db) (dest_id first) = Some va \<and>
      airport_with_id (airports example_db) (dest_id second) = Some ta \<and>
      from1 (example_item ''Unknown'') = display_airport_code fa \<and>
      via (example_item ''Unknown'') = display_airport_code va \<and>
      to (example_item ''Unknown'') = display_airport_code ta \<and>
      airline1 (example_item ''Unknown'') = display_airline_code first \<and>
      airline2 (example_item ''Unknown'') = display_airline_code second)"
proof -
  have h: "example_item ''Unknown'' \<in> set [example_item ''Unknown'']" by simp
  show ?thesis
    using example_search_page2 h display_codes [OF example_search_page2 h] by blast
qed

text \<open>
  C6 as stated fails: the second route of the sample dataset has the empty string as
  airline code, which is not null, and the itinerary built from it shows "Unknown".
\<close>

theorem display_codes_counterexample:
  "example_route 2 [] 1 2 0 \<in> set (routes example_db) \<and>
   example_route 3 ''SQ'' 2 3 0 \<in> set (routes example_db) \<and>
   fst (get_connecting_flights example_db ''berlin'' ''ger'' ''singapore'' [] 2 1)
     = Inr ([example_item ''Unknown''], 2) \<and>
   obj_for (airports example_db) (example_route 2 [] 1 2 0, example_route 3 ''SQ'' 2 3 0)
     = Inr (example_item ''Unknown'') \<and>
   airline_code (example_route 2 [] 1 2 0) = Some [] \<and>
   claimed_airline_code (example_route 2 [] 1 2 0) = [] \<and>
   airline1 (example_item ''Unknown'') = ''Unknown'' \<and>
   airline1 (example_item ''Unknown'') \<noteq> claimed_airline_code (example_route 2 [] 1 2 0)"
  by code_simp

section \<open>Absence of errors\<close>









section \<open>The page count of the handler\<close>

lemma ceiling_div_25: "(t + 24) div 25 = \<lceil>real_of_int t / 25\<rceil>" for t :: int
proof -
  define q where "q = (t + 24) div 25"
  have "25 * q - 25 < t" and "t \<le> 25 * q"
    unfolding q_def by linarith+
  then have "real_of_int (25 * q - 25) < real_of_int t"
    and "real_of_int t \<le> real_of_int (25 * q)"
    by (simp_all only: of_int_le_iff of_int_less_iff)
  then have "real_of_int q - 1 < real_of_int t / 25" and "real_of_int t / 25 \<le> real_of_int q"
    by simp_all
  then have "\<lceil>real_of_int t / 25\<rceil> = q" by (rule ceiling_unique)
  then show ?thesis by (simp add: q_def)
qed

lemma connecting_flights_results:
  assumes "fst (connecting_flights db city1 country1 city2 country2 page)
             = Inr (TemplateResponse name (Some ctx))"
  obtains c1 k1 c2 k2 where
    "city1 = Some c1" "country1 = Some k1" "city2 = Some c2" "country2 = Some k2"
    "fst (get_connecting_flights db c1 k1 c2 k2 page 25) = Inr (ctx_items ctx, ctx_total ctx)"
    "ctx_pages ctx = (ctx_total ctx + 24) div 25"
  using assms
  by (auto simp: connecting_flights_def Let_def split: option.splits prod.splits sum.splits)

text \<open>
  C8. The page count that the handler connecting_flights puts into its response is
  (total + 24) // 25 for the total the search returned, that is the ceiling of
  total / 25, whatever per_page value a search of the same cities is run with.
\<close>

theorem handler_page_count:
  assumes "fst (connecting_flights db city1 country1 city2 country2 page)
             = Inr (TemplateResponse name (Some ctx))"
  shows "ctx_pages ctx = (ctx_total ctx + 24) div 25 \<and>
         ctx_pages ctx = \<lceil>real_of_int (ctx_total ctx) / 25\<rceil> \<and>
         (\<forall>page' per_page' items total_count.
            fst (get_connecting_flights db (the city1) (the country1) (the city2) (the country2)
                   page' per_page') = Inr (items, total_count)
            \<longrightarrow> total_count = ctx_total ctx \<and> ctx_pages ctx = (total_count + 24) div 25)"
proof -
  from assms obtain c1 k1 c2 k2 where
    c: "city1 = Some c1" "country1 = Some k1" "city2 = Some c2" "country2 = Some k2"
    and g: "fst (get_connecting_flights db c1 k1 c2 k2 page 25)
              = Inr (ctx_items ctx, ctx_total ctx)"
    and p: "ctx_pages ctx = (ctx_total ctx + 24) div 25"
    by (rule connecting_flights_results)
  from g obtain results where
    r: "all_results db c1 k1 c2 k2 = Inr results" and t: "ctx_total ctx = int (length results)"
    by (rule get_connecting_flights_InrD)
  have "total_count = ctx_total ctx \<and> ctx_pages ctx = (total_count + 24) div 25"
    if "fst (get_connecting_flights db c1 k1 c2 k2 page' per_page') = Inr (items, total_count)"
    for page' per_page' items total_count
    using that r t p unfolding get_connecting_flights_fst by simp
  then have "\<forall>page' per_page' items total_count.
            fst (get_connecting_flights db (the city1) (the country1) (the city2) (the country2)
                   page' per_page') = Inr (items, total_count)
            \<longrightarrow> total_count = ctx_total ctx \<and> ctx_pages ctx = (total_count + 24) div 25"
    unfolding c option.sel by blast
  moreover have "ctx_pages ctx = \<lceil>real_of_int (ctx_total ctx) / 25\<rceil>"
    using p ceiling_div_25 [of "ctx_total ctx"] by simp
  ultimately show ?thesis using p by blast
qed

lemma example_handler:
  "fst (connecting_flights example_db (Some ''berlin'') (Some ''ger'') (Some ''singapore'')
          (Some []) 1)
     = Inr (TemplateResponse ''results_table.html'' (Some example_context))"
proof -
  obtain db' where
    "get_connecting_flights example_db ''berlin'' ''ger'' ''singapore'' [] 1 25
       = (Inr ([example_item ''QR'', example_item ''Unknown''], 2), db')"
    using example_search
    by (cases "get_connecting_flights example_db ''berlin'' ''ger'' ''singapore'' [] 1 25") simp
  then show ?thesis
    by (simp add: connecting_flights_def example_context_def)
qed

theorem handler_page_count_witness:
  "fst (connecting_flights example_db (Some ''berlin'') (Some ''ger'') (Some ''singapore'')
          (Some []) 1)
     = Inr (TemplateResponse ''results_table.html'' (Some example_context)) \<and>
   ctx_pages example_context = (ctx_total example_context + 24) div 25 \<and>
   ctx_pages example_context = \<lceil>real_of_int (ctx_total example_context) / 25\<rceil>"
  using example_handler handler_page_count [OF example_handler] by blast

end
